theory Spec2Isabelle
  imports Complex_Main "HOL-Library.Sublist"
begin

section \<open>Strings and the builtins used by \<open>hex_to_rgb\<close>\<close>

text \<open>
  A Python \<open>str\<close> is modelled as a \<open>string\<close>: one \<open>char\<close> per code point, which covers
  the code points below 256. The builtins below are the ones \<open>main.py\<close> calls on
  strings, with CPython's behaviour on that range.
\<close>

text \<open>\<open>str.lower\<close>: the letters A-Z, and the Latin-1 capitals 0xC0-0xDE except 0xD7.\<close>

definition lower_char :: "char \<Rightarrow> char" where
  "lower_char c =
     (let n = (of_char c :: nat)
      in if (65 \<le> n \<and> n \<le> 90) \<or> (192 \<le> n \<and> n \<le> 222 \<and> n \<noteq> 215)
         then char_of (n + 32) else c)"

definition lower :: "string \<Rightarrow> string" where
  "lower s = map lower_char s"

text \<open>\<open>str.startswith(c)\<close> and \<open>str.lstrip(c)\<close> for a one-character argument.\<close>

definition startswith :: "string \<Rightarrow> char \<Rightarrow> bool" where
  "startswith s c = (case s of [] \<Rightarrow> False | x # _ \<Rightarrow> x = c)"

definition lstrip :: "string \<Rightarrow> char \<Rightarrow> string" where
  "lstrip s c = dropWhile (\<lambda>x. x = c) s"

text \<open>
  \<open>int(s, 16)\<close>. CPython skips leading white space, takes one optional sign, skips a
  \<open>0x\<close> or \<open>0X\<close> prefix and one underscore after it, reads hexadecimal digits with
  single underscores between them, skips trailing white space and fails unless it has
  read at least one digit and reached the end of the string.
\<close>

definition py_isspace :: "char \<Rightarrow> bool" where
  "py_isspace c =
     (let n = (of_char c :: nat)
      in (9 \<le> n \<and> n \<le> 13) \<or> n = 32 \<or> n = 133 \<or> n = 160)"

definition digit_value :: "char \<Rightarrow> nat" where
  "digit_value c =
     (let n = (of_char c :: nat)
      in if 48 \<le> n \<and> n \<le> 57 then n - 48
         else if 97 \<le> n \<and> n \<le> 122 then n - 87
         else if 65 \<le> n \<and> n \<le> 90 then n - 55
         else 37)"

text \<open>
  The digit scan: \<open>prev\<close> says that the character before was an underscore, \<open>acc\<close> is
  the value read so far and \<open>cnt\<close> the number of digits. The result is the value, the
  number of digits and the unread rest; \<open>None\<close> is the syntax error.
\<close>

fun scan_digits :: "string \<Rightarrow> bool \<Rightarrow> nat \<Rightarrow> nat \<Rightarrow> (nat \<times> nat \<times> string) option" where
  "scan_digits [] prev acc cnt = (if prev then None else Some (acc, cnt, []))"
| "scan_digits (c # cs) prev acc cnt =
     (if c = CHR ''_'' then (if prev then None else scan_digits cs True acc cnt)
      else if digit_value c < 16 then scan_digits cs False (16 * acc + digit_value c) (cnt + 1)
      else if prev then None
      else Some (acc, cnt, c # cs))"

definition skip_sign :: "string \<Rightarrow> int \<times> string" where
  "skip_sign s =
     (case s of
        [] \<Rightarrow> (1, [])
      | c # cs \<Rightarrow> if c = CHR ''+'' then (1, cs) else if c = CHR ''-'' then (- 1, cs) else (1, s))"

definition skip_prefix :: "string \<Rightarrow> string" where
  "skip_prefix s =
     (case s of
        a # b # cs \<Rightarrow>
          if a = CHR ''0'' \<and> (b = CHR ''x'' \<or> b = CHR ''X'')
          then (case cs of [] \<Rightarrow> cs | u # us \<Rightarrow> if u = CHR ''_'' then us else cs)
          else s
      | _ \<Rightarrow> s)"

definition py_int16 :: "string \<Rightarrow> int option" where
  "py_int16 s =
     (let (sign, s1) = skip_sign (dropWhile py_isspace s);
          s2 = skip_prefix s1
      in if startswith s2 CHR ''_'' then None
         else case scan_digits s2 False 0 0 of
                None \<Rightarrow> None
              | Some (v, cnt, rest) \<Rightarrow>
                  if cnt = 0 then None
                  else if dropWhile py_isspace rest = [] then Some (sign * int v)
                  else None)"

section \<open>The colour resolver: \<open>hex_to_rgb\<close>\<close>

definition NAMED_COLORS :: "string \<rightharpoonup> string" where
  "NAMED_COLORS =
     map_of [(''white'', ''#FFFFFF''), (''black'', ''#000000''), (''red'', ''#FF0000''),
             (''green'', ''#00FF00''), (''blue'', ''#0000FF'')]"

text \<open>
  The three \<open>ValueError\<close>s of \<open>hex_to_rgb\<close>, by their messages, and the \<open>KeyError\<close> of
  the dictionary lookup in \<open>set_alignment\<close>.
\<close>

datatype error =
    InvalidHexColorFormat
  | InvalidHexColorValue
  | ColorMustBeString
  | KeyError

text \<open>The argument of \<open>hex_to_rgb\<close>: a string, or a value of any other type.\<close>

datatype color_arg = Str string | NotStr

text \<open>\<open>color[i:i + 2]\<close>\<close>

definition slice2 :: "string \<Rightarrow> nat \<Rightarrow> string" where
  "slice2 s i = take 2 (drop i s)"

text \<open>
  \<open>tuple(int(color[i:i + 2], 16) for i in range(0, 6, 2))\<close> inside the \<open>try\<close>: the
  first group that \<open>int\<close> rejects raises.
\<close>

definition parse_groups :: "string \<Rightarrow> error + (int \<times> int \<times> int)" where
  "parse_groups color =
     (case py_int16 (slice2 color 0) of
        None \<Rightarrow> Inl InvalidHexColorValue
      | Some r \<Rightarrow>
          (case py_int16 (slice2 color 2) of
             None \<Rightarrow> Inl InvalidHexColorValue
           | Some g \<Rightarrow>
               (case py_int16 (slice2 color 4) of
                  None \<Rightarrow> Inl InvalidHexColorValue
                | Some b \<Rightarrow> Inr (r, g, b))))"

text \<open>\<open>''.join([c * 2 for c in color])\<close>\<close>

definition double_chars :: "string \<Rightarrow> string" where
  "double_chars s = concat (map (\<lambda>c. [c, c]) s)"

text \<open>
  Name resolution and marker stripping, the first three statements of the string branch:
  \<open>NAMED_COLORS.get(color.lower(), color)\<close>, then \<open>lstrip('#')\<close> when the string starts
  with the marker.
\<close>

definition resolved :: "string \<Rightarrow> string" where
  "resolved color0 =
     (let color1 = (case NAMED_COLORS (lower color0) of Some v \<Rightarrow> v | None \<Rightarrow> color0)
      in if startswith color1 CHR ''#'' then lstrip color1 CHR ''#'' else color1)"

definition hex_to_rgb :: "color_arg \<Rightarrow> error + (int \<times> int \<times> int)" where
  "hex_to_rgb arg =
     (case arg of
        NotStr \<Rightarrow> Inl ColorMustBeString
      | Str color0 \<Rightarrow>
          (let color = resolved color0
           in if length color \<noteq> 3 \<and> length color \<noteq> 6 then Inl InvalidHexColorFormat
              else parse_groups (if length color = 3 then double_chars color else color)))"

section \<open>Hexadecimal digits, as the specification names them\<close>

definition hex_chars :: string where
  "hex_chars = ''0123456789abcdefABCDEF''"

definition hexdigit :: "char \<Rightarrow> bool" where
  "hexdigit c = (c \<in> set hex_chars)"

definition hexval :: "char \<Rightarrow> int" where
  "hexval c =
     (case map_of (zip hex_chars ([0, 1, 2, 3, 4, 5, 6, 7, 8, 9, 10, 11, 12, 13, 14, 15,
                                   10, 11, 12, 13, 14, 15])) c of
        Some v \<Rightarrow> v
      | None \<Rightarrow> 0)"

section \<open>The document object\<close>

text \<open>
  \<open>FPDF\<close> is a library object. The model keeps the part of its state that \<open>main.py\<close>
  sets and reads (the current font, the fill and text colours) and records, in order,
  what \<open>main.py\<close> asks it to draw. Page geometry (margins, cursor, automatic page breaks)
  and the loading of the two font files stay inside the library.
\<close>

type_synonym rgb = "int \<times> int \<times> int"

record cell =
  c_w :: int
  c_h :: int
  c_text :: string
  c_border :: int
  c_align :: string
  c_fill :: bool
  c_family :: string
  c_style :: string
  c_size :: int
  c_fill_color :: rgb
  c_text_color :: rgb

datatype item = Cell cell | MultiCell cell | Ln int | AddPage | SetY int

record pdf =
  font_family :: string
  font_style :: string
  font_size_pt :: int
  fill_color :: rgb
  text_color :: rgb
  content :: "item list"

text \<open>\<open>FPDF()\<close>: no font selected, size 12, black fill and text, nothing drawn.\<close>

definition new_pdf :: pdf where
  "new_pdf = \<lparr>font_family = [], font_style = [], font_size_pt = 12,
              fill_color = (0, 0, 0), text_color = (0, 0, 0), content = []\<rparr>"

definition set_font :: "pdf \<Rightarrow> string \<Rightarrow> string \<Rightarrow> int \<Rightarrow> pdf" where
  "set_font p family style sz =
     p\<lparr>font_family := family, font_style := style, font_size_pt := sz\<rparr>"

definition set_fill_color :: "pdf \<Rightarrow> rgb \<Rightarrow> pdf" where
  "set_fill_color p c = p\<lparr>fill_color := c\<rparr>"

definition set_text_color :: "pdf \<Rightarrow> rgb \<Rightarrow> pdf" where
  "set_text_color p c = p\<lparr>text_color := c\<rparr>"

definition drawn :: "pdf \<Rightarrow> int \<Rightarrow> int \<Rightarrow> string \<Rightarrow> int \<Rightarrow> string \<Rightarrow> bool \<Rightarrow> cell" where
  "drawn p w h txt border align fill =
     \<lparr>c_w = w, c_h = h, c_text = txt, c_border = border, c_align = align, c_fill = fill,
      c_family = font_family p, c_style = font_style p, c_size = font_size_pt p,
      c_fill_color = fill_color p, c_text_color = text_color p\<rparr>"

definition add_item :: "pdf \<Rightarrow> item \<Rightarrow> pdf" where
  "add_item p i = p\<lparr>content := content p @ [i]\<rparr>"

text \<open>\<open>pdf.cell(w, h, text, border, align, fill)\<close> and \<open>pdf.multi_cell\<close> of the same arguments.\<close>

definition cell :: "pdf \<Rightarrow> int \<Rightarrow> int \<Rightarrow> string \<Rightarrow> int \<Rightarrow> string \<Rightarrow> bool \<Rightarrow> pdf" where
  "cell p w h txt border align fill = add_item p (Cell (drawn p w h txt border align fill))"

definition multi_cell :: "pdf \<Rightarrow> int \<Rightarrow> int \<Rightarrow> string \<Rightarrow> int \<Rightarrow> string \<Rightarrow> bool \<Rightarrow> pdf" where
  "multi_cell p w h txt border align fill =
     add_item p (MultiCell (drawn p w h txt border align fill))"

definition ln_pdf :: "pdf \<Rightarrow> int \<Rightarrow> pdf" where
  "ln_pdf p h = add_item p (Ln h)"

definition add_page :: "pdf \<Rightarrow> pdf" where
  "add_page p = add_item p AddPage"

definition set_y :: "pdf \<Rightarrow> int \<Rightarrow> pdf" where
  "set_y p y = add_item p (SetY y)"

text \<open>
  \<open>pdf.get_string_width(text)\<close> measures the text in the current font. The measuring
  itself is the library's: a parameter of the model, a function of the font family,
  style and size and of the text.
\<close>

type_synonym metric = "string \<Rightarrow> string \<Rightarrow> int \<Rightarrow> string \<Rightarrow> real"

definition get_string_width :: "metric \<Rightarrow> pdf \<Rightarrow> string \<Rightarrow> real" where
  "get_string_width m p txt = m (font_family p) (font_style p) (font_size_pt p) txt"

section \<open>The font-fit rule: \<open>adjust_font_size\<close>\<close>

text \<open>
  The local function of \<open>save_as_pdf\<close>. Its last argument is the loop variable
  \<open>font_size\<close>, which starts as \<open>initial_font_size\<close>; the result is the returned size and
  the document object, whose font the loop has set.
\<close>

function adjust_font_size :: "metric \<Rightarrow> pdf \<Rightarrow> string \<Rightarrow> real \<Rightarrow> int \<Rightarrow> int \<times> pdf" where
  "adjust_font_size m p txt max_width font_size =
     (if get_string_width m p txt > max_width \<and> font_size > 6
      then adjust_font_size m (set_font p ''NotoSans'' [] (font_size - 1)) txt max_width
             (font_size - 1)
      else (font_size, p))"
  by pat_completeness auto
termination
  by (relation "measure (\<lambda>(m, p, txt, max_width, font_size). nat (font_size - 6))") auto

declare adjust_font_size.simps [simp del]

section \<open>The application state and the export: \<open>save_as_pdf\<close>\<close>

text \<open>
  The attributes of \<open>ProposalGeneratorApp\<close> that the export reads and the reset writes.
  A table is the pair of its two entry widgets, each modelled by the text it holds;
  \<open>about_text\<close> is the content of the text widget.
\<close>

record app =
  about_bg_color :: string
  about_font_color :: string
  goal_font_color :: string
  goal_row_color :: string
  about_text :: string
  tables :: "(string \<times> string) list"
  text_alignment :: string

definition add_table :: "app \<Rightarrow> app" where
  "add_table a = a\<lparr>tables := tables a @ [([], [])]\<rparr>"

text \<open>The state that \<open>create_widgets\<close> leaves: the defaults and one empty table.\<close>

definition create_widgets :: app where
  "create_widgets =
     add_table \<lparr>about_bg_color = ''black'', about_font_color = ''white'',
                goal_font_color = ''black'', goal_row_color = ''#ffffff'',
                about_text = [], tables = [], text_alignment = ''L''\<rparr>"

definition set_alignment :: "app \<Rightarrow> string \<Rightarrow> error + app" where
  "set_alignment a align =
     (case map_of [(''left'', ''L''), (''center'', ''C''), (''right'', ''R'')] align of
        None \<Rightarrow> Inl KeyError
      | Some v \<Rightarrow> Inr (a\<lparr>text_alignment := v\<rparr>))"

definition reset_application :: "app \<Rightarrow> app" where
  "reset_application a =
     (let a1 = a\<lparr>about_text := [], about_bg_color := ''black'', about_font_color := ''white'',
                  goal_font_color := ''black'', goal_row_color := ''#ffffff''\<rparr>
      in if tables a1 \<noteq> [] then a1\<lparr>tables := [([], [])]\<rparr> else a1)"

text \<open>\<open>str.strip()\<close>: white space as \<open>str.isspace\<close> has it.\<close>

definition str_isspace :: "char \<Rightarrow> bool" where
  "str_isspace c =
     (let n = (of_char c :: nat)
      in (9 \<le> n \<and> n \<le> 13) \<or> (28 \<le> n \<and> n \<le> 32) \<or> n = 133 \<or> n = 160)"

definition strip :: "string \<Rightarrow> string" where
  "strip s = rev (dropWhile str_isspace (rev (dropWhile str_isspace s)))"

text \<open>\<open>text if text else "N/A"\<close>\<close>

definition or_na :: "string \<Rightarrow> string" where
  "or_na txt = (if txt \<noteq> [] then txt else ''N/A'')"

definition cell_width_problem :: int where "cell_width_problem = 30"
definition cell_width_text :: int where "cell_width_text = 150"
definition cell_height :: int where "cell_height = 10"

text \<open>
  One value cell: \<open>set_font(size=12)\<close>, the font-fit rule, \<open>set_font\<close> at the size it
  chose, and the cell itself.
\<close>

definition value_cell :: "metric \<Rightarrow> pdf \<Rightarrow> string \<Rightarrow> pdf" where
  "value_cell m p txt =
     (let p1 = set_font p ''NotoSans'' [] 12;
          (sz, p2) = adjust_font_size m p1 (or_na txt) (real_of_int cell_width_text) 12;
          p3 = set_font p2 ''NotoSans'' [] sz
      in cell p3 cell_width_text cell_height (or_na txt) 1 ''L'' True)"

text \<open>The body of the loop over \<open>self.tables\<close>.\<close>

definition render_entry :: "metric \<Rightarrow> app \<Rightarrow> pdf \<Rightarrow> string \<times> string \<Rightarrow> error + pdf" where
  "render_entry m a p entry =
     (let problem_text = fst entry;
          goal_text = snd entry;
          p1 = set_fill_color p (255, 255, 255);
          p2 = set_text_color p1 (0, 0, 0);
          p3 = set_font p2 ''NotoSans'' ''B'' 12;
          p4 = cell p3 cell_width_problem cell_height ''Problem:'' 1 ''L'' True;
          p5 = value_cell m p4 problem_text;
          p6 = ln_pdf p5 cell_height
      in case hex_to_rgb (Str (goal_row_color a)) of
           Inl e \<Rightarrow> Inl e
         | Inr bg \<Rightarrow>
             (case hex_to_rgb (Str (goal_font_color a)) of
                Inl e \<Rightarrow> Inl e
              | Inr fg \<Rightarrow>
                  (let p7 = set_text_color (set_fill_color p6 bg) fg;
                       p8 = set_font p7 ''NotoSans'' ''B'' 12;
                       p9 = cell p8 cell_width_problem cell_height ''Goal:'' 1 ''L'' True;
                       p10 = value_cell m p9 goal_text
                   in Inr (ln_pdf p10 (cell_height * 2)))))"

fun render_tables :: "metric \<Rightarrow> app \<Rightarrow> pdf \<Rightarrow> (string \<times> string) list \<Rightarrow> error + pdf" where
  "render_tables m a p [] = Inr p"
| "render_tables m a p (entry # rest) =
     (case render_entry m a p entry of
        Inl e \<Rightarrow> Inl e
      | Inr p' \<Rightarrow> render_tables m a p' rest)"

text \<open>\<open>save_as_pdf\<close> up to the file dialog: the document, or the error of a colour.\<close>

definition assemble :: "metric \<Rightarrow> app \<Rightarrow> error + pdf" where
  "assemble m a =
     (let p1 = add_page new_pdf;
          p2 = set_font p1 ''NotoSans'' ''B'' 20;
          p3 = cell p2 0 10 ''Details About the Project:'' 0 ''L'' False;
          p4 = ln_pdf p3 10
      in case hex_to_rgb (Str (about_bg_color a)) of
           Inl e \<Rightarrow> Inl e
         | Inr bg \<Rightarrow>
             (case hex_to_rgb (Str (about_font_color a)) of
                Inl e \<Rightarrow> Inl e
              | Inr fg \<Rightarrow>
                  (let p5 = set_text_color (set_fill_color p4 bg) fg;
                       p6 = set_font p5 ''NotoSans'' [] 12;
                       p7 = multi_cell p6 0 10 (strip (about_text a)) 0 (text_alignment a) True;
                       p8 = add_page p7;
                       p9 = set_font p8 ''NotoSans'' ''B'' 20;
                       p10 = set_text_color p9 (0, 0, 0);
                       p11 = set_y p10 20;
                       p12 = cell p11 0 10 ''Project Objectives'' 0 ''C'' False;
                       p13 = ln_pdf p12 10
                   in render_tables m a p13 (tables a))))"

text \<open>
  \<open>save_as_pdf\<close>: \<open>file_path\<close> is what the save dialog returns, the empty string when the
  user cancels. The result is the application state afterwards and the file written, if
  any: its path and the document.
\<close>

definition save_as_pdf :: "metric \<Rightarrow> app \<Rightarrow> string \<Rightarrow> error + (app \<times> (string \<times> pdf) option)" where
  "save_as_pdf m a file_path =
     (case assemble m a of
        Inl e \<Rightarrow> Inl e
      | Inr p \<Rightarrow>
          if file_path \<noteq> [] then Inr (reset_application a, Some (file_path, p))
          else Inr (a, None))"

text \<open>
  A metric to run the model on: every glyph is half as wide as the font size, in any
  family and style.
\<close>

definition half_em :: metric where
  "half_em family style sz txt = real (length txt * nat sz) / 2"

text \<open>
  A state to run the model on, after some use: text typed, a background colour picked,
  \<open>Center Align\<close> pressed and two tables added and filled in.
\<close>

definition edited_app :: app where
  "edited_app =
     \<lparr>about_bg_color = ''#336699'', about_font_color = ''white'',
      goal_font_color = ''black'', goal_row_color = ''#ffffff'',
      about_text = ''Hello World'',
      tables = [(''Slow builds'', ''Sub-second builds''), (''Flaky tests'', []), ([], [])],
      text_alignment = ''C''\<rparr>"

section \<open>Hexadecimal digits and \<open>int(s, 16)\<close>\<close>

lemma hexdigit_cases:
  "hexdigit c \<Longrightarrow> c \<in> set ''abcdefABCDEF'' \<or> c \<in> set ''0123456789''"
  by (auto simp: hexdigit_def hex_chars_def)

lemma hexdigit_digit_value:
  assumes "hexdigit c"
  shows "digit_value c < 16" and "int (digit_value c) = hexval c"
  using hexdigit_cases [OF assms]
  by (auto simp: digit_value_def hexval_def hex_chars_def)

lemma hexdigit_plain:
  assumes "hexdigit c"
  shows "\<not> py_isspace c" and "c \<noteq> CHR ''+''" and "c \<noteq> CHR ''-''" and "c \<noteq> CHR ''_''"
    and "c \<noteq> CHR ''x''" and "c \<noteq> CHR ''X''" and "c \<noteq> CHR ''#''"
  using hexdigit_cases [OF assms]
  by (auto simp: py_isspace_def)

lemma py_int16_two_digits:
  assumes "hexdigit a" "hexdigit b"
  shows "py_int16 [a, b] = Some (16 * hexval a + hexval b)"
  using assms
  by (simp add: py_int16_def skip_sign_def skip_prefix_def startswith_def
      hexdigit_plain hexdigit_digit_value)

lemma lower_char_hexdigit:
  assumes "hexdigit c"
  shows "lower_char c \<in> set ''0123456789abcdef''"
  using hexdigit_cases [OF assms]
  by (auto simp: lower_char_def char_of_def bit_Suc_0_iff)

lemma lower_hexdigits:
  "list_all hexdigit s \<Longrightarrow> list_all (\<lambda>c. c \<in> set ''0123456789abcdef'') (lower s)"
  by (induction s) (simp_all add: lower_def lower_char_hexdigit del: set_simps)

lemma hexdigits_not_named:
  assumes "list_all hexdigit s"
  shows "NAMED_COLORS (lower s) = None"
proof -
  have "lower s \<noteq> k" if "\<not> list_all (\<lambda>c. c \<in> set ''0123456789abcdef'') k" for k
    using lower_hexdigits [OF assms] that by auto
  then have "lower s \<noteq> ''white''" "lower s \<noteq> ''black''" "lower s \<noteq> ''red''"
    "lower s \<noteq> ''green''" "lower s \<noteq> ''blue''"
    by simp_all
  then show ?thesis
    by (simp add: NAMED_COLORS_def)
qed

lemma marked_not_named: "NAMED_COLORS (lower (CHR ''#'' # s)) = None"
  by (simp add: NAMED_COLORS_def lower_def lower_char_def)

lemma resolved_hexdigits:
  assumes "list_all hexdigit s"
  shows "resolved s = s"
proof (cases s)
  case Nil
  then show ?thesis
    using hexdigits_not_named [OF assms] by (simp add: resolved_def startswith_def)
next
  case (Cons c cs)
  with assms have "c \<noteq> CHR ''#''"
    by (simp add: hexdigit_plain)
  with Cons show ?thesis
    using hexdigits_not_named [OF assms] by (simp add: resolved_def startswith_def)
qed

lemma lstrip_markers:
  assumes "list_all hexdigit s"
  shows "lstrip (replicate n CHR ''#'' @ s) CHR ''#'' = s"
proof -
  have "dropWhile (\<lambda>x. x = CHR ''#'') s = s"
    using assms by (cases s) (simp_all add: hexdigit_plain)
  then show ?thesis
    by (simp add: lstrip_def dropWhile_append)
qed

lemma resolved_markers:
  assumes "list_all hexdigit s" "0 < n"
  shows "resolved (replicate n CHR ''#'' @ s) = s"
proof -
  from \<open>0 < n\<close> obtain k where n: "n = Suc k"
    by (cases n) simp_all
  have "NAMED_COLORS (lower (replicate n CHR ''#'' @ s)) = None"
    unfolding n using marked_not_named [of "replicate k CHR ''#'' @ s"] by simp
  moreover have "startswith (replicate n CHR ''#'' @ s) CHR ''#''"
    unfolding n by (simp add: startswith_def)
  ultimately show ?thesis
    using lstrip_markers [OF assms(1), of n] by (simp add: resolved_def)
qed

lemma parse_groups_six:
  assumes "list_all hexdigit [a, b, c, d, e, f]"
  shows "parse_groups [a, b, c, d, e, f] =
    Inr (16 * hexval a + hexval b, 16 * hexval c + hexval d, 16 * hexval e + hexval f)"
  using assms by (simp add: parse_groups_def slice2_def py_int16_two_digits)

lemma length_six:
  assumes "length s = 6"
  obtains a b c d e f where "s = [a, b, c, d, e, f]"
  using assms by (auto simp: numeral_eq_Suc length_Suc_conv)

lemma length_three:
  assumes "length s = 3"
  obtains a b c where "s = [a, b, c]"
  using assms by (auto simp: numeral_eq_Suc length_Suc_conv)

lemma hex_to_rgb_hex6:
  assumes "resolved color = s" "length s = 6" "list_all hexdigit s"
  shows "hex_to_rgb (Str color) =
    Inr (16 * hexval (s ! 0) + hexval (s ! 1), 16 * hexval (s ! 2) + hexval (s ! 3),
         16 * hexval (s ! 4) + hexval (s ! 5))"
proof -
  from assms(2) obtain a b c d e f where s: "s = [a, b, c, d, e, f]"
    by (rule length_six)
  show ?thesis
    using assms(3) parse_groups_six [of a b c d e f]
    by (simp add: hex_to_rgb_def assms(1) s)
qed

lemma hex_to_rgb_hex3:
  assumes "resolved color = s" "length s = 3" "list_all hexdigit s"
  shows "hex_to_rgb (Str color) =
    Inr (17 * hexval (s ! 0), 17 * hexval (s ! 1), 17 * hexval (s ! 2))"
proof -
  from assms(2) obtain a b c where s: "s = [a, b, c]"
    by (rule length_three)
  show ?thesis
    using assms(3) parse_groups_six [of a a b b c c]
    by (simp add: hex_to_rgb_def assms(1) s double_chars_def)
qed

section \<open>The font-fit loop\<close>

lemma adjust_font_size_shrink:
  assumes "get_string_width m p t > w" and "f > 6"
  shows "adjust_font_size m p t w f =
    adjust_font_size m (set_font p ''NotoSans'' [] (f - 1)) t w (f - 1)"
  using assms by (subst adjust_font_size.simps) simp

lemma adjust_font_size_stop:
  assumes "\<not> (get_string_width m p t > w \<and> f > 6)"
  shows "adjust_font_size m p t w f = (f, p)"
  using assms by (subst adjust_font_size.simps) auto

lemma adjust_font_size_le: "fst (adjust_font_size m p t w f) \<le> f"
proof (induction m p t w f rule: adjust_font_size.induct)
  case (1 m p t w f)
  show ?case
  proof (cases "get_string_width m p t > w \<and> f > 6")
    case True
    with "1" show ?thesis
      by (simp add: adjust_font_size_shrink)
  next
    case False
    then show ?thesis
      by (simp add: adjust_font_size_stop)
  qed
qed

lemma adjust_font_size_ge: "6 \<le> f \<Longrightarrow> 6 \<le> fst (adjust_font_size m p t w f)"
proof (induction m p t w f rule: adjust_font_size.induct)
  case (1 m p t w f)
  show ?case
  proof (cases "get_string_width m p t > w \<and> f > 6")
    case True
    with "1" show ?thesis
      by (simp add: adjust_font_size_shrink)
  next
    case False
    with "1.prems" show ?thesis
      by (simp add: adjust_font_size_stop)
  qed
qed

lemma adjust_font_size_content: "content (snd (adjust_font_size m p t w f)) = content p"
proof (induction m p t w f rule: adjust_font_size.induct)
  case (1 m p t w f)
  show ?case
  proof (cases "get_string_width m p t > w \<and> f > 6")
    case True
    with "1" show ?thesis
      by (simp add: adjust_font_size_shrink set_font_def)
  next
    case False
    then show ?thesis
      by (simp add: adjust_font_size_stop)
  qed
qed

lemma adjust_font_size_overflow:
  assumes "6 \<le> f" and "get_string_width m p t > w"
    and "\<forall>g. 6 \<le> g \<and> g < f \<longrightarrow> m ''NotoSans'' [] g t > w"
  shows "fst (adjust_font_size m p t w f) = 6"
  using assms
proof (induction m p t w f rule: adjust_font_size.induct)
  case (1 m p t w f)
  show ?case
  proof (cases "f > 6")
    case True
    let ?p = "set_font p ''NotoSans'' [] (f - 1)"
    have "get_string_width m ?p t > w"
      using "1.prems"(3) True by (simp add: get_string_width_def set_font_def)
    moreover have "\<forall>g. 6 \<le> g \<and> g < f - 1 \<longrightarrow> m ''NotoSans'' [] g t > w"
      using "1.prems"(3) by simp
    ultimately have "fst (adjust_font_size m ?p t w (f - 1)) = 6"
      using "1.IH" "1.prems"(2) True by simp
    then show ?thesis
      using "1.prems"(2) True by (simp add: adjust_font_size_shrink)
  next
    case False
    with "1.prems"(1) show ?thesis
      by (simp add: adjust_font_size_stop)
  qed
qed

lemma adjust_font_size_wider:
  assumes "\<forall>q. get_string_width m q s \<le> get_string_width m q t"
  shows "fst (adjust_font_size m p t w f) \<le> fst (adjust_font_size m p s w f)"
  using assms
proof (induction m p t w f rule: adjust_font_size.induct)
  case (1 m p t w f)
  let ?p = "set_font p ''NotoSans'' [] (f - 1)"
  have wider: "get_string_width m p s \<le> get_string_width m p t"
    using "1.prems" by simp
  show ?case
  proof (cases "get_string_width m p t > w \<and> f > 6")
    case shrink_t: True
    then have t: "adjust_font_size m p t w f = adjust_font_size m ?p t w (f - 1)"
      by (simp add: adjust_font_size_shrink)
    show ?thesis
    proof (cases "get_string_width m p s > w")
      case True
      with shrink_t have "adjust_font_size m p s w f = adjust_font_size m ?p s w (f - 1)"
        by (simp add: adjust_font_size_shrink)
      with t "1.IH" [OF shrink_t "1.prems"] show ?thesis
        by simp
    next
      case False
      then have "adjust_font_size m p s w f = (f, p)"
        by (simp add: adjust_font_size_stop)
      moreover have "fst (adjust_font_size m ?p t w (f - 1)) \<le> f - 1"
        by (rule adjust_font_size_le)
      ultimately show ?thesis
        using t by simp
    qed
  next
    case False
    then have "adjust_font_size m p t w f = (f, p)"
      by (rule adjust_font_size_stop)
    moreover from False wider have "adjust_font_size m p s w f = (f, p)"
      by (intro adjust_font_size_stop) auto
    ultimately show ?thesis
      by simp
  qed
qed

lemma half_em_size:
  assumes "f \<le> g"
  shows "half_em family style f s \<le> half_em family style g s"
proof -
  from assms have "nat f \<le> nat g"
    by simp
  then have "length s * nat f \<le> length s * nat g"
    by (rule mult_le_mono2)
  then have "real (length s * nat f) \<le> real (length s * nat g)"
    by (simp only: of_nat_le_iff)
  then show ?thesis
    unfolding half_em_def by (rule divide_right_mono) simp
qed

lemma half_em_sublist:
  assumes "sublist u v"
  shows "half_em family style sz u \<le> half_em family style sz v"
proof -
  from assms have "length u \<le> length v"
    by (auto simp: sublist_def)
  then have "length u * nat sz \<le> length v * nat sz"
    by (rule mult_le_mono1)
  then have "real (length u * nat sz) \<le> real (length v * nat sz)"
    by (simp only: of_nat_le_iff)
  then show ?thesis
    unfolding half_em_def by (rule divide_right_mono) simp
qed

section \<open>What the export draws\<close>

lemma content_set_font [simp]: "content (set_font q family style sz) = content q"
  by (simp add: set_font_def)

lemma content_set_fill_color [simp]: "content (set_fill_color q c) = content q"
  by (simp add: set_fill_color_def)

lemma content_set_text_color [simp]: "content (set_text_color q c) = content q"
  by (simp add: set_text_color_def)

lemma content_cell: "content (cell q w h s b al f) = content q @ [Cell (drawn q w h s b al f)]"
  by (simp add: cell_def add_item_def)

lemma content_ln_pdf: "content (ln_pdf q h) = content q @ [Ln h]"
  by (simp add: ln_pdf_def add_item_def)

lemma value_cell_item:
  "\<exists>c. content (value_cell m p t) = content p @ [Cell c] \<and> c_text c = or_na t \<and>
     c_w c = cell_width_text \<and> 6 \<le> c_size c \<and> c_size c \<le> 12 \<and>
     (m ''NotoSans'' [] 12 (or_na t) \<le> 150 \<longrightarrow> c_size c = 12)"
proof -
  let ?p1 = "set_font p ''NotoSans'' [] 12"
  let ?r = "adjust_font_size m ?p1 (or_na t) (real_of_int cell_width_text) 12"
  let ?p3 = "set_font (snd ?r) ''NotoSans'' [] (fst ?r)"
  let ?c = "drawn ?p3 cell_width_text cell_height (or_na t) 1 ''L'' True"
  have "content (snd ?r) = content p"
    by (simp add: adjust_font_size_content)
  then have drawn: "content (value_cell m p t) = content p @ [Cell ?c]"
    by (simp add: value_cell_def Let_def split_beta content_cell)
  have fields: "c_text ?c = or_na t" "c_w ?c = cell_width_text" "c_size ?c = fst ?r"
    by (simp_all add: drawn_def set_font_def)
  have bounds: "6 \<le> fst ?r" "fst ?r \<le> 12"
    by (simp_all add: adjust_font_size_ge adjust_font_size_le)
  have fits: "fst ?r = 12" if "m ''NotoSans'' [] 12 (or_na t) \<le> 150"
    using that
    by (simp add: adjust_font_size_stop get_string_width_def set_font_def cell_width_text_def)
  show ?thesis
  proof (intro exI [of _ ?c] conjI impI)
    show "content (value_cell m p t) = content p @ [Cell ?c]"
      by (rule drawn)
    show "c_text ?c = or_na t" and "c_w ?c = cell_width_text"
      by (rule fields)+
    show "6 \<le> c_size ?c" and "c_size ?c \<le> 12"
      using bounds by (simp_all only: fields)
    show "c_size ?c = 12" if "m ''NotoSans'' [] 12 (or_na t) \<le> 150"
      unfolding fields by (rule fits [OF that])
  qed
qed

lemma render_entry_items:
  assumes "render_entry m a p entry = Inr p'"
  shows "\<exists>c1 c2 c3 c4.
    content p' = content p @ [Cell c1, Cell c2, Ln 10, Cell c3, Cell c4, Ln 20] \<and>
    c_text c1 = ''Problem:'' \<and> c_text c3 = ''Goal:'' \<and>
    c_text c2 = or_na (fst entry) \<and> c_text c4 = or_na (snd entry) \<and>
    c_w c2 = cell_width_text \<and> c_w c4 = cell_width_text \<and>
    (m ''NotoSans'' [] 12 (or_na (fst entry)) \<le> 150 \<longrightarrow> c_size c2 = 12) \<and>
    (m ''NotoSans'' [] 12 (or_na (snd entry)) \<le> 150 \<longrightarrow> c_size c4 = 12)"
proof -
  let ?p3 = "set_font (set_text_color (set_fill_color p (255, 255, 255)) (0, 0, 0)) ''NotoSans'' ''B'' 12"
  let ?c1 = "drawn ?p3 cell_width_problem cell_height ''Problem:'' 1 ''L'' True"
  let ?p4 = "cell ?p3 cell_width_problem cell_height ''Problem:'' 1 ''L'' True"
  let ?p5 = "value_cell m ?p4 (fst entry)"
  let ?p6 = "ln_pdf ?p5 cell_height"
  from assms obtain bg fg where bg: "hex_to_rgb (Str (goal_row_color a)) = Inr bg"
    and fg: "hex_to_rgb (Str (goal_font_color a)) = Inr fg"
    by (auto simp: render_entry_def Let_def split: sum.splits)
  let ?p8 = "set_font (set_text_color (set_fill_color ?p6 bg) fg) ''NotoSans'' ''B'' 12"
  let ?c3 = "drawn ?p8 cell_width_problem cell_height ''Goal:'' 1 ''L'' True"
  let ?p9 = "cell ?p8 cell_width_problem cell_height ''Goal:'' 1 ''L'' True"
  let ?p10 = "value_cell m ?p9 (snd entry)"
  have p': "p' = ln_pdf ?p10 (cell_height * 2)"
    using assms bg fg by (simp add: render_entry_def Let_def)
  have c4: "content ?p4 = content p @ [Cell ?c1]"
    by (simp add: content_cell)
  obtain c2 where c2: "content ?p5 = content ?p4 @ [Cell c2]" "c_text c2 = or_na (fst entry)"
    "c_w c2 = cell_width_text"
    "m ''NotoSans'' [] 12 (or_na (fst entry)) \<le> 150 \<longrightarrow> c_size c2 = 12"
    using value_cell_item [of m ?p4 "fst entry"] by blast
  have c9: "content ?p9 = content ?p5 @ [Ln cell_height, Cell ?c3]"
    by (simp add: content_cell content_ln_pdf)
  obtain c4 where c4': "content ?p10 = content ?p9 @ [Cell c4]" "c_text c4 = or_na (snd entry)"
    "c_w c4 = cell_width_text"
    "m ''NotoSans'' [] 12 (or_na (snd entry)) \<le> 150 \<longrightarrow> c_size c4 = 12"
    using value_cell_item [of m ?p9 "snd entry"] by blast
  have "content p' =
      content p @ [Cell ?c1, Cell c2, Ln cell_height, Cell ?c3, Cell c4, Ln (cell_height * 2)]"
    unfolding p' by (simp add: content_ln_pdf c4'(1) c9 c2(1) c4)
  then have "content p' = content p @ [Cell ?c1, Cell c2, Ln 10, Cell ?c3, Cell c4, Ln 20]"
    by (simp add: cell_height_def)
  moreover have "c_text ?c1 = ''Problem:''" "c_text ?c3 = ''Goal:''"
    by (simp_all add: drawn_def)
  ultimately show ?thesis
    using c2(2-4) c4'(2-4) by blast
qed

lemma render_tables_extends:
  "render_tables m a p entries = Inr p' \<Longrightarrow> \<exists>more. content p' = content p @ more"
proof (induction entries arbitrary: p)
  case Nil
  then show ?case by simp
next
  case (Cons e es)
  from Cons.prems obtain p1 where p1: "render_entry m a p e = Inr p1"
    and rest: "render_tables m a p1 es = Inr p'"
    by (auto split: sum.splits)
  from render_entry_items [OF p1] obtain items where "content p1 = content p @ items"
    by blast
  moreover from Cons.IH [OF rest] obtain more where "content p' = content p1 @ more"
    by blast
  ultimately show ?case
    by simp
qed

lemma render_tables_items:
  assumes "render_tables m a p entries = Inr p'" and "i < length entries"
  shows "\<exists>before c1 c2 c3 c4 after.
    content p' = before @ [Cell c1, Cell c2, Ln 10, Cell c3, Cell c4, Ln 20] @ after \<and>
    length before = length (content p) + 6 * i \<and>
    c_text c1 = ''Problem:'' \<and> c_text c3 = ''Goal:'' \<and>
    c_text c2 = or_na (fst (entries ! i)) \<and> c_text c4 = or_na (snd (entries ! i)) \<and>
    c_w c2 = cell_width_text \<and> c_w c4 = cell_width_text \<and>
    (m ''NotoSans'' [] 12 (or_na (fst (entries ! i))) \<le> 150 \<longrightarrow> c_size c2 = 12) \<and>
    (m ''NotoSans'' [] 12 (or_na (snd (entries ! i))) \<le> 150 \<longrightarrow> c_size c4 = 12)"
  using assms
proof (induction entries arbitrary: p i)
  case Nil
  then show ?case by simp
next
  case (Cons e es)
  from Cons.prems(1) obtain p1 where p1: "render_entry m a p e = Inr p1"
    and rest: "render_tables m a p1 es = Inr p'"
    by (auto split: sum.splits)
  from render_entry_items [OF p1] obtain c1 c2 c3 c4 where
    here: "content p1 = content p @ [Cell c1, Cell c2, Ln 10, Cell c3, Cell c4, Ln 20]"
    and props: "c_text c1 = ''Problem:''" "c_text c3 = ''Goal:''"
      "c_text c2 = or_na (fst e)" "c_text c4 = or_na (snd e)"
      "c_w c2 = cell_width_text" "c_w c4 = cell_width_text"
      "m ''NotoSans'' [] 12 (or_na (fst e)) \<le> 150 \<longrightarrow> c_size c2 = 12"
      "m ''NotoSans'' [] 12 (or_na (snd e)) \<le> 150 \<longrightarrow> c_size c4 = 12"
    by blast
  show ?case
  proof (cases i)
    case 0
    from render_tables_extends [OF rest] obtain more where "content p' = content p1 @ more"
      by blast
    with here have "content p' =
        content p @ [Cell c1, Cell c2, Ln 10, Cell c3, Cell c4, Ln 20] @ more"
      by simp
    with props 0 show ?thesis
      by (intro exI [of _ "content p"] exI [of _ c1] exI [of _ c2] exI [of _ c3] exI [of _ c4]
          exI [of _ more]) simp
  next
    case (Suc j)
    with Cons.prems(2) have "j < length es"
      by simp
    from Cons.IH [OF rest this] obtain before d1 d2 d3 d4 after where
      "content p' = before @ [Cell d1, Cell d2, Ln 10, Cell d3, Cell d4, Ln 20] @ after"
      "length before = length (content p1) + 6 * j"
      "c_text d1 = ''Problem:''" "c_text d3 = ''Goal:''"
      "c_text d2 = or_na (fst (es ! j))" "c_text d4 = or_na (snd (es ! j))"
      "c_w d2 = cell_width_text" "c_w d4 = cell_width_text"
      "m ''NotoSans'' [] 12 (or_na (fst (es ! j))) \<le> 150 \<longrightarrow> c_size d2 = 12"
      "m ''NotoSans'' [] 12 (or_na (snd (es ! j))) \<le> 150 \<longrightarrow> c_size d4 = 12"
      by blast
    with here Suc show ?thesis
      by (intro exI [of _ before] exI [of _ d1] exI [of _ d2] exI [of _ d3] exI [of _ d4]
          exI [of _ after]) simp
  qed
qed

section \<open>The export as a whole\<close>

lemma assemble_tables:
  assumes "assemble m a = Inr doc"
  shows "\<exists>p. length (content p) = 8 \<and> render_tables m a p (tables a) = Inr doc"
proof -
  from assms obtain bg fg where bg: "hex_to_rgb (Str (about_bg_color a)) = Inr bg"
    and fg: "hex_to_rgb (Str (about_font_color a)) = Inr fg"
    by (auto simp: assemble_def Let_def split: sum.splits)
  let ?p4 = "ln_pdf (cell (set_font (add_page new_pdf) ''NotoSans'' ''B'' 20) 0 10
      ''Details About the Project:'' 0 ''L'' False) 10"
  let ?p7 = "multi_cell (set_font (set_text_color (set_fill_color ?p4 bg) fg) ''NotoSans'' [] 12)
      0 10 (strip (about_text a)) 0 (text_alignment a) True"
  let ?p13 = "ln_pdf (cell (set_y (set_text_color (set_font (add_page ?p7) ''NotoSans'' ''B'' 20)
      (0, 0, 0)) 20) 0 10 ''Project Objectives'' 0 ''C'' False) 10"
  have "render_tables m a ?p13 (tables a) = Inr doc"
    using assms bg fg by (simp add: assemble_def Let_def)
  moreover have "length (content ?p13) = 8"
    by (simp add: content_ln_pdf content_cell set_y_def add_page_def multi_cell_def add_item_def
        new_pdf_def)
  ultimately show ?thesis
    by blast
qed

lemma render_entry_ok:
  assumes "hex_to_rgb (Str (goal_row_color a)) = Inr bg"
    and "hex_to_rgb (Str (goal_font_color a)) = Inr fg"
  shows "\<exists>p'. render_entry m a p entry = Inr p'"
  using assms by (simp add: render_entry_def Let_def)

lemma render_tables_ok:
  assumes "hex_to_rgb (Str (goal_row_color a)) = Inr bg"
    and "hex_to_rgb (Str (goal_font_color a)) = Inr fg"
  shows "\<exists>p'. render_tables m a p entries = Inr p'"
proof (induction entries arbitrary: p)
  case Nil
  show ?case by simp
next
  case (Cons e es)
  from render_entry_ok [OF assms] obtain p1 where "render_entry m a p e = Inr p1"
    by blast
  with Cons.IH [of p1] show ?case
    by simp
qed

lemma assemble_ok:
  assumes "hex_to_rgb (Str (about_bg_color a)) = Inr c1"
    and "hex_to_rgb (Str (about_font_color a)) = Inr c2"
    and "hex_to_rgb (Str (goal_row_color a)) = Inr c3"
    and "hex_to_rgb (Str (goal_font_color a)) = Inr c4"
  shows "\<exists>doc. assemble m a = Inr doc"
  using assms(1,2) render_tables_ok [OF assms(3,4)] by (simp add: assemble_def Let_def)

lemma default_colors:
  "hex_to_rgb (Str ''black'') = Inr (0, 0, 0)"
  "hex_to_rgb (Str ''white'') = Inr (255, 255, 255)"
  "hex_to_rgb (Str ''#ffffff'') = Inr (255, 255, 255)"
  by (simp_all add: hex_to_rgb_def resolved_def NAMED_COLORS_def lower_def lower_char_def
      startswith_def lstrip_def parse_groups_def slice2_def py_int16_def py_isspace_def
      skip_sign_def skip_prefix_def digit_value_def)

lemma assemble_runs:
  "\<exists>doc. assemble half_em (create_widgets\<lparr>tables := [(''Slow builds'', [])]\<rparr>) = Inr doc"
  by (rule assemble_ok) (simp_all add: create_widgets_def add_table_def default_colors)

lemma save_as_pdf_chosen:
  assumes "assemble m a = Inr doc" and "file_path \<noteq> []"
  shows "save_as_pdf m a file_path = Inr (reset_application a, Some (file_path, doc))"
  using assms by (simp add: save_as_pdf_def)

lemma save_as_pdf_error:
  assumes "assemble m a = Inl e"
  shows "save_as_pdf m a file_path = Inl e"
  using assms by (simp add: save_as_pdf_def)

lemma reset_application_fields:
  "about_bg_color (reset_application a) = ''black''"
  "about_font_color (reset_application a) = ''white''"
  "goal_row_color (reset_application a) = ''#ffffff''"
  "goal_font_color (reset_application a) = ''black''"
  "about_text (reset_application a) = []"
  "tables a \<noteq> [] \<Longrightarrow> tables (reset_application a) = [([], [])]"
  "text_alignment (reset_application a) = text_alignment a"
  by (simp_all add: reset_application_def Let_def)

section \<open>Claims about the colour resolver\<close>

lemma hex_to_rgb_bad_length:
  assumes "resolved color = s" and "length s \<noteq> 3" and "length s \<noteq> 6"
  shows "hex_to_rgb (Str color) = Inl InvalidHexColorFormat"
  using assms by (simp add: hex_to_rgb_def)

lemma hex_to_rgb_xyz123: "hex_to_rgb (Str ''xyz123'') = Inl InvalidHexColorValue"
  by (simp add: hex_to_rgb_def resolved_def NAMED_COLORS_def lower_def lower_char_def
      startswith_def parse_groups_def slice2_def py_int16_def py_isspace_def skip_sign_def
      skip_prefix_def digit_value_def)

text \<open>
  C1. When the string left after name resolution and marker stripping is six hexadecimal
  digits \<open>rrggbb\<close>, \<open>hex_to_rgb\<close> returns the triple
  \<open>(int(rr, 16), int(gg, 16), int(bb, 16))\<close>, each channel being sixteen times the value of
  its first digit plus the value of its second. In particular \<open>#abc\<close> resolves as
  \<open>#aabbcc\<close> does, to \<open>(170, 187, 204)\<close>.
\<close>

theorem hex_to_rgb_six_digits:
  assumes "resolved color = s" and "length s = 6" and "list_all hexdigit s"
  shows "(\<exists>r g b. py_int16 (slice2 s 0) = Some r \<and> py_int16 (slice2 s 2) = Some g \<and>
             py_int16 (slice2 s 4) = Some b \<and> hex_to_rgb (Str color) = Inr (r, g, b) \<and>
             r = 16 * hexval (s ! 0) + hexval (s ! 1) \<and>
             g = 16 * hexval (s ! 2) + hexval (s ! 3) \<and>
             b = 16 * hexval (s ! 4) + hexval (s ! 5)) \<and>
         hex_to_rgb (Str ''#abc'') = hex_to_rgb (Str ''#aabbcc'') \<and>
         hex_to_rgb (Str ''#abc'') = Inr (170, 187, 204)"
proof -
  from assms(2) obtain a b c d e f where s: "s = [a, b, c, d, e, f]"
    by (rule length_six)
  have groups: "py_int16 (slice2 s 0) = Some (16 * hexval a + hexval b)"
    "py_int16 (slice2 s 2) = Some (16 * hexval c + hexval d)"
    "py_int16 (slice2 s 4) = Some (16 * hexval e + hexval f)"
    using assms(3) by (simp_all add: s slice2_def py_int16_two_digits)
  have whole: "hex_to_rgb (Str color) =
      Inr (16 * hexval a + hexval b, 16 * hexval c + hexval d, 16 * hexval e + hexval f)"
    using hex_to_rgb_hex6 [OF assms] by (simp add: s)
  have r3: "resolved ''#abc'' = ''abc''" and r6: "resolved ''#aabbcc'' = ''aabbcc''"
    using resolved_markers [of "''abc''" 1] resolved_markers [of "''aabbcc''" 1]
    by (simp_all add: hexdigit_def hex_chars_def)
  have "hex_to_rgb (Str ''#abc'') = Inr (170, 187, 204)"
    using hex_to_rgb_hex3 [OF r3] by (simp add: hexdigit_def hex_chars_def hexval_def)
  moreover have "hex_to_rgb (Str ''#aabbcc'') = Inr (170, 187, 204)"
    using hex_to_rgb_hex6 [OF r6] by (simp add: hexdigit_def hex_chars_def hexval_def)
  ultimately show ?thesis
    using groups whole by (simp add: s)
qed

theorem hex_to_rgb_six_digits_witness:
  "resolved ''#1a2B3c'' = ''1a2B3c'' \<and> length ''1a2B3c'' = 6 \<and> list_all hexdigit ''1a2B3c'' \<and>
   hex_to_rgb (Str ''#1a2B3c'') = Inr (26, 43, 60)"
proof -
  have r: "resolved ''#1a2B3c'' = ''1a2B3c''"
    using resolved_markers [of "''1a2B3c''" 1] by (simp add: hexdigit_def hex_chars_def)
  have h: "list_all hexdigit ''1a2B3c''"
    by (simp add: hexdigit_def hex_chars_def)
  have l: "length ''1a2B3c'' = 6"
    by simp
  show ?thesis
    using hex_to_rgb_six_digits [OF r l h] r h
    by (simp add: hexval_def hex_chars_def)
qed

text \<open>
  C2. The claim is that \<open>hex_to_rgb\<close> raises whenever a two-character group holds a
  character that is not a hexadecimal digit. \<open>int(s, 16)\<close> accepts a sign and white space
  around the digits, so the groups \<open>+1\<close>, \<open> 2\<close> and \<open>c \<close> are read as 1, 2 and 12
  and nothing is raised.
\<close>

theorem hex_to_rgb_accepts_non_hex_groups:
  "hex_to_rgb (Str ''+1 2c '') = Inr (1, 2, 12)"
  by (simp add: hex_to_rgb_def resolved_def NAMED_COLORS_def lower_def lower_char_def
      startswith_def parse_groups_def slice2_def py_int16_def py_isspace_def skip_sign_def
      skip_prefix_def digit_value_def)

text \<open>
  C3. The claim is that every channel that \<open>hex_to_rgb\<close> returns lies between 0 and 255.
  The group \<open>-a\<close> is read by \<open>int(s, 16)\<close> as \<open>-10\<close>, so the colour \<open>-a-b-c\<close>
  yields three negative channels.
\<close>

theorem hex_to_rgb_negative_channels:
  "hex_to_rgb (Str ''-a-b-c'') = Inr (- 10, - 11, - 12)"
  by (simp add: hex_to_rgb_def resolved_def NAMED_COLORS_def lower_def lower_char_def
      startswith_def parse_groups_def slice2_def py_int16_def py_isspace_def skip_sign_def
      skip_prefix_def digit_value_def)

text \<open>
  C7. For a string \<open>abc\<close> of exactly three hexadecimal digits, \<open>hex_to_rgb\<close> returns what
  it returns for the expanded form \<open>aabbcc\<close>: each channel is seventeen times the value of
  its digit.
\<close>

theorem hex_to_rgb_three_digits:
  assumes "length s = 3" and "list_all hexdigit s"
  shows "hex_to_rgb (Str s) = hex_to_rgb (Str [s ! 0, s ! 0, s ! 1, s ! 1, s ! 2, s ! 2]) \<and>
         hex_to_rgb (Str s) = Inr (17 * hexval (s ! 0), 17 * hexval (s ! 1), 17 * hexval (s ! 2))"
proof -
  from assms(1) obtain a b c where s: "s = [a, b, c]"
    by (rule length_three)
  have long: "list_all hexdigit [a, a, b, b, c, c]"
    using assms(2) by (simp add: s)
  have "hex_to_rgb (Str s) = Inr (17 * hexval a, 17 * hexval b, 17 * hexval c)"
    using hex_to_rgb_hex3 [OF resolved_hexdigits [OF assms(2)] assms] by (simp add: s)
  moreover have "hex_to_rgb (Str [a, a, b, b, c, c]) = Inr (17 * hexval a, 17 * hexval b, 17 * hexval c)"
    using hex_to_rgb_hex6 [OF resolved_hexdigits [OF long] _ long] by simp
  ultimately show ?thesis
    by (simp add: s)
qed

theorem hex_to_rgb_three_digits_witness:
  "length ''f0C'' = 3 \<and> list_all hexdigit ''f0C'' \<and>
   hex_to_rgb (Str ''f0C'') = hex_to_rgb (Str ''ff00CC'') \<and>
   hex_to_rgb (Str ''f0C'') = Inr (255, 0, 204)"
proof -
  have h: "list_all hexdigit ''f0C''"
    by (simp add: hexdigit_def hex_chars_def)
  have l: "length ''f0C'' = 3"
    by simp
  have e: "hex_to_rgb (Str ''f0C'') = hex_to_rgb (Str ''ff00CC'')"
    using hex_to_rgb_three_digits [OF l h, THEN conjunct1] by simp
  have v: "hex_to_rgb (Str ''f0C'') = Inr (255, 0, 204)"
    using hex_to_rgb_three_digits [OF l h, THEN conjunct2] by (simp add: hexval_def hex_chars_def)
  show ?thesis
    by (intro conjI l h e v)
qed

text \<open>
  C10. \<open>hex_to_rgb\<close> strips every leading marker: for a string \<open>s\<close> of three or six
  hexadecimal digits and any \<open>n \<ge> 1\<close>, the input made of \<open>n\<close> characters \<open>#\<close> followed
  by \<open>s\<close> resolves to the triple that \<open>s\<close> alone resolves to.
\<close>

theorem hex_to_rgb_strips_all_markers:
  assumes "list_all hexdigit s" and "length s = 3 \<or> length s = 6" and "1 \<le> n"
  shows "hex_to_rgb (Str (replicate n CHR ''#'' @ s)) = hex_to_rgb (Str s) \<and>
         (\<exists>rgb. hex_to_rgb (Str s) = Inr rgb)"
proof -
  have "resolved (replicate n CHR ''#'' @ s) = resolved s"
    using resolved_markers [OF assms(1), of n] resolved_hexdigits [OF assms(1)] assms(3) by simp
  then have "hex_to_rgb (Str (replicate n CHR ''#'' @ s)) = hex_to_rgb (Str s)"
    by (simp add: hex_to_rgb_def)
  moreover have "\<exists>rgb. hex_to_rgb (Str s) = Inr rgb"
    using assms(2) hex_to_rgb_hex3 [OF resolved_hexdigits [OF assms(1)] _ assms(1)]
      hex_to_rgb_hex6 [OF resolved_hexdigits [OF assms(1)] _ assms(1)]
    by blast
  ultimately show ?thesis
    by simp
qed

theorem hex_to_rgb_strips_all_markers_witness:
  "list_all hexdigit ''0fA'' \<and> (length ''0fA'' = 3 \<or> length ''0fA'' = 6) \<and> (1::nat) \<le> 3 \<and>
   hex_to_rgb (Str ''###0fA'') = hex_to_rgb (Str ''0fA'') \<and>
   hex_to_rgb (Str ''0fA'') = Inr (0, 255, 170)"
proof -
  have h: "list_all hexdigit ''0fA''"
    by (simp add: hexdigit_def hex_chars_def)
  have l: "length ''0fA'' = 3 \<or> length ''0fA'' = 6"
    by simp
  have n: "(1::nat) \<le> 3"
    by simp
  have v: "hex_to_rgb (Str ''0fA'') = Inr (0, 255, 170)"
    using hex_to_rgb_hex3 [OF resolved_hexdigits [OF h] _ h]
    by (simp add: hexval_def hex_chars_def)
  show ?thesis
    using hex_to_rgb_strips_all_markers [OF h l n] h v
    by (simp add: numeral_eq_Suc)
qed

section \<open>Claims about the font-fit rule\<close>

text \<open>
  C5. Font sizes are whole numbers, as the program's are: the default 12 and what the loop
  leaves of it. For every text, every maximum width and every starting size from the
  floor 6 upwards, \<open>adjust_font_size\<close> returns a size that is not below 6 and not above
  the starting size. When the call is made as \<open>save_as_pdf\<close> makes it, with the document
  font set to the regular face at the starting size, and the library's measure does not
  make a text wider at a smaller size, a text that overflows even at size 6 gets size 6,
  no less. The rule sets the font only: nothing is drawn and the text is not changed.
\<close>

theorem adjust_font_size_bounds:
  assumes "6 \<le> start"
  shows "6 \<le> fst (adjust_font_size m p t w start) \<and>
    fst (adjust_font_size m p t w start) \<le> start \<and>
    (font_family p = ''NotoSans'' \<and> font_style p = [] \<and> font_size_pt p = start \<and>
     (\<forall>f g. f \<le> g \<longrightarrow> m ''NotoSans'' [] f t \<le> m ''NotoSans'' [] g t) \<and>
     m ''NotoSans'' [] 6 t > w \<longrightarrow>
       fst (adjust_font_size m p t w start) = 6) \<and>
    content (snd (adjust_font_size m p t w start)) = content p"
proof (intro conjI impI)
  show "6 \<le> fst (adjust_font_size m p t w start)"
    using assms by (rule adjust_font_size_ge)
next
  show "fst (adjust_font_size m p t w start) \<le> start"
    by (rule adjust_font_size_le)
next
  assume call: "font_family p = ''NotoSans'' \<and> font_style p = [] \<and> font_size_pt p = start \<and>
    (\<forall>f g. f \<le> g \<longrightarrow> m ''NotoSans'' [] f t \<le> m ''NotoSans'' [] g t) \<and>
    m ''NotoSans'' [] 6 t > w"
  then have grows: "m ''NotoSans'' [] 6 t \<le> m ''NotoSans'' [] g t" if "6 \<le> g" for g
    using that by blast
  from call have floor: "m ''NotoSans'' [] 6 t > w"
    by blast
  have "get_string_width m p t = m ''NotoSans'' [] start t"
    using call by (simp add: get_string_width_def)
  with grows [OF assms] floor have entry: "get_string_width m p t > w"
    by simp
  have below: "\<forall>g. 6 \<le> g \<and> g < start \<longrightarrow> m ''NotoSans'' [] g t > w"
  proof (intro allI impI)
    fix g
    assume "6 \<le> g \<and> g < start"
    then have "m ''NotoSans'' [] 6 t \<le> m ''NotoSans'' [] g t"
      using grows by blast
    with floor show "m ''NotoSans'' [] g t > w"
      by simp
  qed
  show "fst (adjust_font_size m p t w start) = 6"
    using assms entry below by (rule adjust_font_size_overflow)
next
  show "content (snd (adjust_font_size m p t w start)) = content p"
    by (rule adjust_font_size_content)
qed

theorem adjust_font_size_bounds_witness:
  "(6::int) \<le> 12 \<and>
   font_family (set_font new_pdf ''NotoSans'' [] 12) = ''NotoSans'' \<and>
   font_style (set_font new_pdf ''NotoSans'' [] 12) = [] \<and>
   font_size_pt (set_font new_pdf ''NotoSans'' [] 12) = 12 \<and>
   half_em ''NotoSans'' [] 6 (replicate 60 CHR ''a'') > 150 \<and>
   fst (adjust_font_size half_em (set_font new_pdf ''NotoSans'' [] 12)
          (replicate 60 CHR ''a'') 150 12) = 6 \<and>
   fst (adjust_font_size half_em (set_font new_pdf ''NotoSans'' [] 12)
          (replicate 30 CHR ''a'') 150 12) = 10 \<and>
   6 \<le> fst (adjust_font_size half_em (set_font new_pdf ''NotoSans'' [] 12)
            (replicate 30 CHR ''a'') 150 12) \<and>
   fst (adjust_font_size half_em (set_font new_pdf ''NotoSans'' [] 12)
          (replicate 30 CHR ''a'') 150 12) \<le> 12"
proof -
  let ?p = "set_font new_pdf ''NotoSans'' [] 12"
  have start: "(6::int) \<le> 12"
    by simp
  have font: "font_family ?p = ''NotoSans''" "font_style ?p = []" "font_size_pt ?p = 12"
    by (simp_all add: set_font_def)
  have grows: "\<forall>f g. f \<le> g \<longrightarrow>
      half_em ''NotoSans'' [] f (replicate 60 CHR ''a'') \<le> half_em ''NotoSans'' [] g (replicate 60 CHR ''a'')"
    by (simp add: half_em_size)
  have floor: "half_em ''NotoSans'' [] 6 (replicate 60 CHR ''a'') > 150"
    by (simp add: half_em_def)
  have a: "fst (adjust_font_size half_em ?p (replicate 60 CHR ''a'') 150 12) = 6"
    using adjust_font_size_bounds [OF start, of half_em ?p "replicate 60 CHR ''a''" 150]
      font grows floor
    by blast
  have b: "fst (adjust_font_size half_em ?p (replicate 30 CHR ''a'') 150 12) = 10"
    by (simp add: adjust_font_size.simps half_em_def get_string_width_def set_font_def)
  have c: "6 \<le> fst (adjust_font_size half_em ?p (replicate 30 CHR ''a'') 150 12)"
    "fst (adjust_font_size half_em ?p (replicate 30 CHR ''a'') 150 12) \<le> 12"
    using adjust_font_size_bounds [OF start, of half_em ?p "replicate 30 CHR ''a''" 150]
    by blast+
  show ?thesis
    by (intro conjI start font floor a b c)
qed

text \<open>
  C6. When the measure of the library never makes a string narrower than a string it
  contains, a strict superstring never gets a larger size than the string it contains,
  from the same document state, starting size and maximum width.
\<close>

theorem adjust_font_size_monotone:
  assumes "\<forall>u v family style sz. sublist u v \<longrightarrow> m family style sz u \<le> m family style sz v"
    and "strict_sublist s t"
  shows "fst (adjust_font_size m p t w start) \<le> fst (adjust_font_size m p s w start)"
proof -
  from assms(2) have "sublist s t"
    by (simp add: strict_sublist_def)
  with assms(1) have "\<forall>q. get_string_width m q s \<le> get_string_width m q t"
    by (simp add: get_string_width_def)
  then show ?thesis
    by (rule adjust_font_size_wider)
qed

theorem adjust_font_size_monotone_witness:
  "strict_sublist ''aaaaaaaaaaaaaaaaaaaa'' ''baaaaaaaaaaaaaaaaaaaabbbbbbbbb'' \<and>
   fst (adjust_font_size half_em (set_font new_pdf ''NotoSans'' [] 12)
          ''baaaaaaaaaaaaaaaaaaaabbbbbbbbb'' 150 12) = 10 \<and>
   fst (adjust_font_size half_em (set_font new_pdf ''NotoSans'' [] 12)
          ''aaaaaaaaaaaaaaaaaaaa'' 150 12) = 12 \<and>
   fst (adjust_font_size half_em (set_font new_pdf ''NotoSans'' [] 12)
          ''baaaaaaaaaaaaaaaaaaaabbbbbbbbb'' 150 12)
     \<le> fst (adjust_font_size half_em (set_font new_pdf ''NotoSans'' [] 12)
          ''aaaaaaaaaaaaaaaaaaaa'' 150 12)"
proof -
  let ?s = "''aaaaaaaaaaaaaaaaaaaa''" and ?t = "''baaaaaaaaaaaaaaaaaaaabbbbbbbbb''"
  let ?p = "set_font new_pdf ''NotoSans'' [] 12"
  have mono: "\<forall>u v family style sz. sublist u v \<longrightarrow> half_em family style sz u \<le> half_em family style sz v"
    by (simp add: half_em_sublist)
  have "?t = ''b'' @ ?s @ ''bbbbbbbbb''"
    by simp
  then have "sublist ?s ?t"
    unfolding sublist_def by blast
  then have strict: "strict_sublist ?s ?t"
    by (simp add: strict_sublist_def)
  have vt: "fst (adjust_font_size half_em ?p ?t 150 12) = 10"
    by (simp add: adjust_font_size.simps half_em_def get_string_width_def set_font_def)
  have vs: "fst (adjust_font_size half_em ?p ?s 150 12) = 12"
    by (simp add: adjust_font_size.simps half_em_def get_string_width_def set_font_def)
  show ?thesis
    using adjust_font_size_monotone [OF mono strict, of ?p 150 12] strict vt vs
    by (intro conjI)
qed

section \<open>Claims about the export\<close>

text \<open>
  C8. In the exported document, the row pair of the entry at position \<open>i\<close> is the six
  items that follow the first \<open>8 + 6 * i\<close>: the label cell \<open>Problem:\<close>, the value cell of
  the problem, a line break, the label cell \<open>Goal:\<close>, the value cell of the goal and a
  larger line break. A value cell holds \<open>N/A\<close> when its text is empty and the text itself
  otherwise; when a text that is not empty is, at size 12 in the regular face, no wider
  than the value cell, its value cell is drawn at size 12.
\<close>

theorem objective_table_values:
  assumes "assemble m a = Inr doc" and "i < length (tables a)"
    and "tables a ! i = (problem_text, goal_text)"
  shows "\<exists>before c1 c2 c3 c4 after.
    content doc = before @ [Cell c1, Cell c2, Ln 10, Cell c3, Cell c4, Ln 20] @ after \<and>
    length before = 8 + 6 * i \<and>
    c_text c1 = ''Problem:'' \<and> c_text c3 = ''Goal:'' \<and>
    c_w c2 = cell_width_text \<and> c_w c4 = cell_width_text \<and>
    (problem_text = [] \<longrightarrow> c_text c2 = ''N/A'') \<and>
    (goal_text = [] \<longrightarrow> c_text c4 = ''N/A'') \<and>
    (problem_text \<noteq> [] \<longrightarrow> c_text c2 = problem_text) \<and>
    (goal_text \<noteq> [] \<longrightarrow> c_text c4 = goal_text) \<and>
    (problem_text \<noteq> [] \<and> m ''NotoSans'' [] 12 problem_text \<le> real_of_int cell_width_text \<longrightarrow>
       c_size c2 = 12) \<and>
    (goal_text \<noteq> [] \<and> m ''NotoSans'' [] 12 goal_text \<le> real_of_int cell_width_text \<longrightarrow>
       c_size c4 = 12)"
proof -
  from assemble_tables [OF assms(1)] obtain p where p: "length (content p) = 8"
    and loop: "render_tables m a p (tables a) = Inr doc"
    by blast
  from render_tables_items [OF loop assms(2)] obtain before c1 c2 c3 c4 after where
    items: "content doc = before @ [Cell c1, Cell c2, Ln 10, Cell c3, Cell c4, Ln 20] @ after"
    and pos: "length before = length (content p) + 6 * i"
    and labels: "c_text c1 = ''Problem:''" "c_text c3 = ''Goal:''"
    and texts: "c_text c2 = or_na (fst (tables a ! i))" "c_text c4 = or_na (snd (tables a ! i))"
    and widths: "c_w c2 = cell_width_text" "c_w c4 = cell_width_text"
    and sizes: "m ''NotoSans'' [] 12 (or_na (fst (tables a ! i))) \<le> 150 \<longrightarrow> c_size c2 = 12"
      "m ''NotoSans'' [] 12 (or_na (snd (tables a ! i))) \<le> 150 \<longrightarrow> c_size c4 = 12"
    by blast
  show ?thesis
  proof (rule exI [of _ before], rule exI [of _ c1], rule exI [of _ c2], rule exI [of _ c3],
      rule exI [of _ c4], rule exI [of _ after], intro conjI impI)
    show "content doc = before @ [Cell c1, Cell c2, Ln 10, Cell c3, Cell c4, Ln 20] @ after"
      by (rule items)
    show "length before = 8 + 6 * i"
      using pos p by simp
    show "c_text c1 = ''Problem:''" and "c_text c3 = ''Goal:''"
      by (rule labels)+
    show "c_w c2 = cell_width_text" and "c_w c4 = cell_width_text"
      by (rule widths)+
    show "c_text c2 = ''N/A''" if "problem_text = []"
      using texts(1) that assms(3) by (simp add: or_na_def)
    show "c_text c4 = ''N/A''" if "goal_text = []"
      using texts(2) that assms(3) by (simp add: or_na_def)
    show "c_text c2 = problem_text" if "problem_text \<noteq> []"
      using texts(1) that assms(3) by (simp add: or_na_def)
    show "c_text c4 = goal_text" if "goal_text \<noteq> []"
      using texts(2) that assms(3) by (simp add: or_na_def)
    show "c_size c2 = 12"
      if "problem_text \<noteq> [] \<and> m ''NotoSans'' [] 12 problem_text \<le> real_of_int cell_width_text"
      using sizes(1) that assms(3) by (simp add: or_na_def cell_width_text_def)
    show "c_size c4 = 12"
      if "goal_text \<noteq> [] \<and> m ''NotoSans'' [] 12 goal_text \<le> real_of_int cell_width_text"
      using sizes(2) that assms(3) by (simp add: or_na_def cell_width_text_def)
  qed
qed

theorem objective_table_values_witness:
  "\<exists>doc. assemble half_em (create_widgets\<lparr>tables := [(''Slow builds'', [])]\<rparr>) = Inr doc \<and>
     0 < length (tables (create_widgets\<lparr>tables := [(''Slow builds'', [])]\<rparr>)) \<and>
     tables (create_widgets\<lparr>tables := [(''Slow builds'', [])]\<rparr>) ! 0 = (''Slow builds'', []) \<and>
     half_em ''NotoSans'' [] 12 ''Slow builds'' \<le> real_of_int cell_width_text \<and>
     (\<exists>before c1 c2 c3 c4 after.
        content doc = before @ [Cell c1, Cell c2, Ln 10, Cell c3, Cell c4, Ln 20] @ after \<and>
        length before = 8 \<and> c_text c2 = ''Slow builds'' \<and> c_size c2 = 12 \<and>
        c_text c4 = ''N/A'')"
proof -
  let ?a = "create_widgets\<lparr>tables := [(''Slow builds'', [])]\<rparr>"
  from assemble_runs obtain doc where doc: "assemble half_em ?a = Inr doc"
    by blast
  have i: "0 < length (tables ?a)"
    by simp
  have e: "tables ?a ! 0 = (''Slow builds'', [])"
    by simp
  have fits: "half_em ''NotoSans'' [] 12 ''Slow builds'' \<le> real_of_int cell_width_text"
    by (simp add: half_em_def cell_width_text_def)
  from objective_table_values [OF doc i e] obtain before c1 c2 c3 c4 after where
    "content doc = before @ [Cell c1, Cell c2, Ln 10, Cell c3, Cell c4, Ln 20] @ after"
    "length before = 8 + 6 * 0"
    "''Slow builds'' \<noteq> [] \<longrightarrow> c_text c2 = ''Slow builds''"
    "([]::string) = [] \<longrightarrow> c_text c4 = ''N/A''"
    "''Slow builds'' \<noteq> [] \<and> half_em ''NotoSans'' [] 12 ''Slow builds'' \<le> real_of_int cell_width_text
       \<longrightarrow> c_size c2 = 12"
    by blast
  with fits have "\<exists>before c1 c2 c3 c4 after.
      content doc = before @ [Cell c1, Cell c2, Ln 10, Cell c3, Cell c4, Ln 20] @ after \<and>
      length before = 8 \<and> c_text c2 = ''Slow builds'' \<and> c_size c2 = 12 \<and> c_text c4 = ''N/A''"
    by (intro exI [of _ before] exI [of _ c1] exI [of _ c2] exI [of _ c3] exI [of _ c4]
        exI [of _ after]) simp
  with doc i e fits show ?thesis
    by blast
qed

text \<open>
  C9. When the document has been assembled and the save dialog returns no path,
  \<open>save_as_pdf\<close> raises nothing, writes no file and leaves the application state as it
  was: \<open>reset_application\<close> is not called.
\<close>

theorem save_as_pdf_cancelled:
  assumes "assemble m a = Inr doc"
  shows "save_as_pdf m a [] = Inr (a, None)"
  using assms by (simp add: save_as_pdf_def)

theorem save_as_pdf_cancelled_witness:
  "\<exists>doc. assemble half_em edited_app = Inr doc \<and>
     save_as_pdf half_em edited_app [] = Inr (edited_app, None) \<and>
     about_bg_color edited_app = ''#336699'' \<and>
     about_bg_color (reset_application edited_app) = ''black'' \<and>
     about_text edited_app = ''Hello World'' \<and>
     about_text (reset_application edited_app) = [] \<and>
     length (tables edited_app) = 3 \<and>
     length (tables (reset_application edited_app)) = 1"
proof -
  have picked: "hex_to_rgb (Str ''#336699'') = Inr (51, 102, 153)"
    by (simp add: hex_to_rgb_def resolved_def NAMED_COLORS_def lower_def lower_char_def
        startswith_def lstrip_def parse_groups_def slice2_def py_int16_def py_isspace_def
        skip_sign_def skip_prefix_def digit_value_def)
  have "\<exists>doc. assemble half_em edited_app = Inr doc"
    by (rule assemble_ok) (simp_all add: edited_app_def default_colors picked)
  then obtain doc where doc: "assemble half_em edited_app = Inr doc"
    by blast
  have before: "about_bg_color edited_app = ''#336699''" "about_text edited_app = ''Hello World''"
    "length (tables edited_app) = 3"
    by (simp_all add: edited_app_def)
  have after: "about_bg_color (reset_application edited_app) = ''black''"
    "about_text (reset_application edited_app) = []"
    "length (tables (reset_application edited_app)) = 1"
    by (simp_all add: reset_application_def edited_app_def)
  from save_as_pdf_cancelled [OF doc] doc before after show ?thesis
    by blast
qed

text \<open>
  What a successful export resets: the entries, the about text and the four colours. The
  alignment is the one attribute that \<open>create_widgets\<close> initialises and
  \<open>reset_application\<close> does not touch.
\<close>

lemma export_resets_entries_and_colors:
  assumes "assemble m a = Inr doc" and "file_path \<noteq> []" and "tables a \<noteq> []"
  shows "\<exists>a'. save_as_pdf m a file_path = Inr (a', Some (file_path, doc)) \<and>
    tables a' = [([], [])] \<and> about_text a' = [] \<and>
    about_bg_color a' = ''black'' \<and> about_font_color a' = ''white'' \<and>
    goal_row_color a' = ''#ffffff'' \<and> goal_font_color a' = ''black'' \<and>
    text_alignment a' = text_alignment a"
  using save_as_pdf_chosen [OF assms(1,2)] assms(3)
  by (simp add: reset_application_fields)

text \<open>
  C4. The claim is that a successful export puts the alignment back to its default, left.
  After \<open>Center Align\<close> and an export with three entries and a chosen path, the entries
  and the colours are those of the initial state, and the alignment is still \<open>C\<close>.
\<close>

theorem export_keeps_alignment:
  "set_alignment (add_table (add_table create_widgets)) ''center'' =
     Inr ((add_table (add_table create_widgets))\<lparr>text_alignment := ''C''\<rparr>) \<and>
   (\<exists>doc. save_as_pdf half_em ((add_table (add_table create_widgets))\<lparr>text_alignment := ''C''\<rparr>)
            ''out.pdf'' =
          Inr (create_widgets\<lparr>text_alignment := ''C''\<rparr>, Some (''out.pdf'', doc))) \<and>
   length (tables (add_table (add_table create_widgets))) = 3 \<and>
   text_alignment (create_widgets\<lparr>text_alignment := ''C''\<rparr>) = ''C'' \<and>
   text_alignment create_widgets = ''L''"
proof -
  let ?a = "(add_table (add_table create_widgets))\<lparr>text_alignment := ''C''\<rparr>"
  have click: "set_alignment (add_table (add_table create_widgets)) ''center'' = Inr ?a"
    by (simp add: set_alignment_def)
  have "\<exists>doc. assemble half_em ?a = Inr doc"
    by (rule assemble_ok) (simp_all add: create_widgets_def add_table_def default_colors)
  then obtain doc where doc: "assemble half_em ?a = Inr doc"
    by blast
  have reset: "reset_application ?a = create_widgets\<lparr>text_alignment := ''C''\<rparr>"
    by (simp add: reset_application_def create_widgets_def add_table_def)
  have "save_as_pdf half_em ?a ''out.pdf'' =
      Inr (create_widgets\<lparr>text_alignment := ''C''\<rparr>, Some (''out.pdf'', doc))"
    using save_as_pdf_chosen [OF doc, of "''out.pdf''"] reset by simp
  moreover have "length (tables (add_table (add_table create_widgets))) = 3"
    by (simp add: create_widgets_def add_table_def)
  moreover have "text_alignment create_widgets = ''L''"
    by (simp add: create_widgets_def add_table_def)
  ultimately show ?thesis
    using click by auto
qed

end
